theory Spec2Isabelle
  imports Main "HOL-Library.Word"
begin

unbundle bit_operations_syntax

section \<open>Go values used by the logging package\<close>

text \<open>
  Go strings are byte sequences: \<open>len\<close> and slicing count bytes. They are modelled as
  \<open>string\<close> (a list of 8-bit characters). A run-time panic of the Go code is a value of
  type \<open>panic\<close>, returned on the left of a sum; a Go \<open>error\<close> result is an
  \<open>error option\<close> (\<open>None\<close> is \<open>nil\<close>).
\<close>

datatype panic = IndexOutOfRange | NilDereference

datatype error =
    ErrorNotSet
  | InvalidTemplate string
  | UnknownToken string
  | OpenError string
  | ErrInvalid

text \<open>\<open>template[a:b]\<close> for \<open>a \<le> b \<le> len(template)\<close>.\<close>

definition slice :: "string \<Rightarrow> nat \<Rightarrow> nat \<Rightarrow> string" where
  "slice s a b = take (b - a) (drop a s)"

definition isDigit :: "char \<Rightarrow> bool" where
  "isDigit c \<longleftrightarrow> 48 \<le> (of_char c :: nat) \<and> (of_char c :: nat) \<le> 57"

subsection \<open>Decimal conversion (strconv.Atoi, the verb d of fmt)\<close>

definition digitVal :: "char \<Rightarrow> nat" where
  "digitVal c = of_char c - 48"

definition parseDigits :: "string \<Rightarrow> nat" where
  "parseDigits ds = foldl (\<lambda>n c. 10 * n + digitVal c) 0 ds"

definition maxInt64 :: int where
  "maxInt64 = 9223372036854775807"

text \<open>
  \<open>strconv.Atoi\<close> on a 64-bit platform: an optional sign, then decimal digits. A value
  out of range is returned saturated, together with an error; a syntax error gives 0 and
  an error. The second component says whether an error is returned.
\<close>

definition Atoi :: "string \<Rightarrow> int \<times> bool" where
  "Atoi s =
     (let neg = (s \<noteq> [] \<and> hd s = CHR ''-'');
          ds = (if s \<noteq> [] \<and> (hd s = CHR ''-'' \<or> hd s = CHR ''+'') then tl s else s)
      in if ds = [] \<or> \<not> list_all isDigit ds then (0, True)
         else let n = int (parseDigits ds)
              in if neg then (if n > maxInt64 + 1 then (- maxInt64 - 1, True) else (- n, False))
                 else (if n > maxInt64 then (maxInt64, True) else (n, False)))"

fun natDigits :: "nat \<Rightarrow> string" where
  "natDigits n = (if n < 10 then [char_of (48 + n)]
                  else natDigits (n div 10) @ [char_of (48 + n mod 10)])"

declare natDigits.simps [simp del]

text \<open>The verb \<open>%d\<close> without flags.\<close>

definition itoa :: "int \<Rightarrow> string" where
  "itoa i = (if i < 0 then CHR ''-'' # natDigits (nat (- i)) else natDigits (nat i))"

text \<open>
  The verb \<open>%Nd\<close> (space padding on the left) and \<open>%0Nd\<close> (zero padding after the
  sign) of \<open>fmt.Sprintf\<close>.
\<close>

definition fmt_d :: "bool \<Rightarrow> nat \<Rightarrow> int \<Rightarrow> string" where
  "fmt_d zero wid i =
     (let sign = (if i < 0 then ''-'' else []);
          ds = natDigits (nat \<bar>i\<bar>);
          pad = wid - (length sign + length ds)
      in if zero then sign @ replicate pad CHR ''0'' @ ds
         else replicate pad CHR '' '' @ sign @ ds)"

subsection \<open>utf8.RuneCountInString\<close>

text \<open>
  \<open>fmt\<close> pads a string operand to a width counted in runes, so the rune count of a byte
  string is part of the model. \<open>firstInfo\<close> is the table \<open>first\<close> of package
  \<open>unicode/utf8\<close> for a lead byte of at least 0x80: the size of the encoding and the
  range accepted for the second byte; size 0 marks an invalid lead byte.
\<close>

definition firstInfo :: "nat \<Rightarrow> nat \<times> nat \<times> nat" where
  "firstInfo c =
     (if 0xC2 \<le> c \<and> c \<le> 0xDF then (2, 0x80, 0xBF)
      else if c = 0xE0 then (3, 0xA0, 0xBF)
      else if (0xE1 \<le> c \<and> c \<le> 0xEC) \<or> c = 0xEE \<or> c = 0xEF then (3, 0x80, 0xBF)
      else if c = 0xED then (3, 0x80, 0x9F)
      else if c = 0xF0 then (4, 0x90, 0xBF)
      else if 0xF1 \<le> c \<and> c \<le> 0xF3 then (4, 0x80, 0xBF)
      else if c = 0xF4 then (4, 0x80, 0x8F)
      else (0, 0, 0))"

definition byteAt :: "string \<Rightarrow> nat \<Rightarrow> nat" where
  "byteAt s i = of_char (s ! i)"

text \<open>The number of bytes the loop of \<open>RuneCountInString\<close> advances by at the head of \<open>s\<close>.\<close>

definition runeStep :: "string \<Rightarrow> nat" where
  "runeStep s =
     (let c = byteAt s 0 in
      if c < 0x80 then 1
      else case firstInfo c of (sz, lo, hi) \<Rightarrow>
        if sz = 0 then 1
        else if sz > length s then 1
        else if byteAt s 1 < lo \<or> hi < byteAt s 1 then 1
        else if sz = 2 then 2
        else if byteAt s 2 < 0x80 \<or> 0xBF < byteAt s 2 then 1
        else if sz = 3 then 3
        else if byteAt s 3 < 0x80 \<or> 0xBF < byteAt s 3 then 1
        else 4)"

lemma runeStep_pos: "0 < runeStep s"
  by (simp add: runeStep_def Let_def split: prod.splits)

function RuneCountInString :: "string \<Rightarrow> nat" where
  "RuneCountInString s =
     (if s = [] then 0 else Suc (RuneCountInString (drop (runeStep s) s)))"
  by pat_completeness auto
termination
  by (relation "measure length") (use runeStep_pos in \<open>auto simp: diff_less\<close>)

declare RuneCountInString.simps [simp del]

subsection \<open>fmt.Sprintf with a string operand\<close>

text \<open>
  \<open>padString\<close> of package \<open>fmt\<close>: the operand is padded with spaces to \<open>wid\<close> runes,
  on the right when the flag \<open>-\<close> is given, on the left otherwise; a longer operand is
  written as it is.
\<close>

definition padString :: "bool \<Rightarrow> nat \<Rightarrow> string \<Rightarrow> string" where
  "padString left wid s =
     (let padding = replicate (wid - RuneCountInString s) CHR '' ''
      in if left then s @ padding else padding @ s)"

text \<open>
  \<open>fmt.Sprintf(format, s)\<close> for a format of the shape \<open>%[-]<digits>s\<close> with a width
  that has no leading zero, the only formats the formatter builds. Any other format is
  returned as it is (the formatter never passes one).
\<close>

definition Sprintf_s :: "string \<Rightarrow> string \<Rightarrow> string" where
  "Sprintf_s format s =
     (case format of
        [] \<Rightarrow> format
      | p # r \<Rightarrow>
          let left = (r \<noteq> [] \<and> hd r = CHR ''-'');
              r1 = (if left then tl r else r);
              ds = takeWhile isDigit r1;
              verb = dropWhile isDigit r1
          in if p = CHR ''%'' \<and> ds \<noteq> [] \<and> hd ds \<noteq> CHR ''0'' \<and> verb = ''s''
             then padString left (parseDigits ds) s
             else format)"

section \<open>Records\<close>

text \<open>
  Modelled from the spec: the declarations of \<open>Level\<close>, \<open>Record\<close> and \<open>LevelName\<close>
  are not part of the two source files. \<open>Level\<close> is the ordered severity enumeration
  with the sentinel \<open>NOTSET\<close>; its other members are the keys of the default colouring
  table of formatters.go. A \<open>Record\<close> has the fields \<open>Time\<close>, \<open>Name\<close>, \<open>Level\<close> and
  \<open>Message\<close>. The display name of a level, \<open>LevelName\<close>, is a parameter of \<open>Format\<close>.
  A \<open>time.Time\<close> is represented by the values its accessors return.
\<close>

datatype Level = NOTSET | DEBUG | INFO | WARNING | ERROR | FATAL

record Time =
  Year :: int
  Month :: int
  Day :: int
  Hour :: int
  Minute :: int
  Second :: int
  Nanosecond :: int

record Record =
  Time :: Time
  Name :: string
  Level :: Level
  Message :: string

section \<open>The template formatter (formatters.go)\<close>

text \<open>An element of \<open>formatTokens\<close>, of type \<open>[]interface{}\<close>: a string or an int.\<close>

datatype token = TString string | TInt int

text \<open>
  The fields of \<open>TemplateFormatter\<close> that \<open>SetFormat\<close>, \<open>GetFormat\<close> and \<open>Format\<close> read
  or write. \<open>processMessage\<close> is a function value in the source too; the two fields that
  only keep the arguments of the pattern colouring setters are left out.
\<close>

record TemplateFormatter =
  formatString :: string
  formatTokens :: "token list"
  levelColoring :: "Level \<rightharpoonup> string"
  processMessage :: "string \<Rightarrow> string \<Rightarrow> string"

definition defaultProcessMessage :: "string \<Rightarrow> string \<Rightarrow> string" where
  "defaultProcessMessage m c = m"

definition tfTime :: int where "tfTime = 0"
definition tfTimeMilliseconds :: int where "tfTimeMilliseconds = 1"
definition tfName :: int where "tfName = 2"
definition tfBaseName :: int where "tfBaseName = 3"
definition tfLevel :: int where "tfLevel = 4"
definition tfMessage :: int where "tfMessage = 5"
definition tfFieldWidth :: int where "tfFieldWidth = 0x100"
definition tfFieldWidthMask :: int where "tfFieldWidthMask = 0xff00"
definition tfFieldWidthShift :: nat where "tfFieldWidthShift = 8"
definition tfAlignRight :: int where "tfAlignRight = 0x10000"
definition tfAlignLeft :: int where "tfAlignLeft = 0"

definition tokenToValue :: "string \<rightharpoonup> int" where
  "tokenToValue = map_of
     [(''time'', tfTime),
      (''timems'', tfTimeMilliseconds),
      (''name'', tfName),
      (''basename'', tfBaseName),
      (''level'', tfLevel),
      (''message'', tfMessage)]"

subsection \<open>The two regular expressions of SetFormat\<close>

text \<open>
  \<open>templatePtn\<close> is \<^verbatim>\<open>\{[^}]+\}\<close>. A match starts at an opening brace that is followed by
  at least one byte other than the closing brace and then by a closing brace; it ends at
  the first closing brace. \<open>spanEnd s\<close> takes the text after the opening brace and gives
  the length of the rest of the match.
\<close>

definition spanEnd :: "string \<Rightarrow> nat option" where
  "spanEnd s =
     (let body = takeWhile (\<lambda>c. c \<noteq> CHR ''}'') s
      in if body = [] \<or> length body = length s then None else Some (length body + 1))"

lemma spanEnd_le: "spanEnd s = Some n \<Longrightarrow> n \<le> length s \<and> 0 < n"
  using length_takeWhile_le [of "\<lambda>c. c \<noteq> CHR ''}''" s]
  by (auto simp: spanEnd_def Let_def split: if_splits)

text \<open>
  \<open>templatePtn.FindAllStringIndex(template, -1)\<close>: the successive leftmost matches, none
  overlapping, as pairs of start and end offsets. The first argument is the offset in
  the template of the text still to be searched.
\<close>

function FindAllStringIndex :: "nat \<Rightarrow> string \<Rightarrow> (nat \<times> nat) list" where
  "FindAllStringIndex i [] = []"
| "FindAllStringIndex i (c # s) =
     (if c = CHR ''{'' then
        (case spanEnd s of
           Some n \<Rightarrow> (i, i + 1 + n) # FindAllStringIndex (i + 1 + n) (drop n s)
         | None \<Rightarrow> FindAllStringIndex (i + 1) s)
      else FindAllStringIndex (i + 1) s)"
  by pat_completeness auto
termination
  by (relation "measure (\<lambda>(i, s). length s)") auto

text \<open>
  \<open>templateSpecPtn\<close> is \<^verbatim>\<open>^\{([^}]+?)(([<>])(\d+))?\}$\<close>. The first group is not greedy:
  the match takes the shortest non-empty selector after which the rest of the span is an
  alignment character and digits, and the whole span when there is no such place.
  \<open>specSplit acc rest\<close> extends the selector \<open>acc\<close> one byte at a time and returns the
  groups 1, 3 and 4.
\<close>

fun specSplit :: "string \<Rightarrow> string \<Rightarrow> string \<times> string \<times> string" where
  "specSplit acc [] = (acc, [], [])"
| "specSplit acc (c # cs) =
     (if (c = CHR ''<'' \<or> c = CHR ''>'') \<and> cs \<noteq> [] \<and> list_all isDigit cs
      then (acc, [c], cs)
      else specSplit (acc @ [c]) cs)"

text \<open>
  \<open>templateSpecPtn.FindStringSubmatch(item)\<close>, reduced to the groups that \<open>SetFormat\<close>
  reads; \<open>None\<close> is the nil slice returned when the item does not match.
\<close>

definition FindStringSubmatch :: "string \<Rightarrow> (string \<times> string \<times> string) option" where
  "FindStringSubmatch item =
     (case item of
        [] \<Rightarrow> None
      | c # rest \<Rightarrow>
          if c = CHR ''{'' \<and> rest \<noteq> [] \<and> last rest = CHR ''}''
             \<and> butlast rest \<noteq> [] \<and> CHR ''}'' \<notin> set (butlast rest)
          then Some (specSplit [hd (butlast rest)] (tl (butlast rest)))
          else None)"

subsection \<open>SetFormat, NewTemplateFormatter, GetFormat\<close>

text \<open>
  The tokens that \<open>SetFormat\<close> appends for the alignment and width groups of a span.
  In Go \<open><<\<close> binds tighter than \<open>+\<close>, so the width token is
  \<open>tfFieldWidth + ((w - 1) << tfFieldWidthShift)\<close>. The error of \<open>Atoi\<close> is dropped.
  The alignment token is appended as a token of its own, after the width token.
\<close>

definition widthTokens :: "string \<Rightarrow> string \<Rightarrow> token list" where
  "widthTokens alignment wd =
     (if length alignment > 0 \<and> length wd > 0 then
        (let w = fst (Atoi wd) in
         if w > 0 then
           (let w1 = (if w > 254 then 254 else w)
            in TInt (tfFieldWidth + push_bit tfFieldWidthShift (w1 - 1))
               # (if alignment = ''>'' then [TInt tfAlignRight] else []))
         else [])
      else [])"

text \<open>
  The loop of \<open>SetFormat\<close> over the matches \<open>m\<close>, with the loop variables \<open>last\<close>
  (here \<open>last0\<close>) and \<open>tokens\<close>. Indexing the nil slice of a span that does not match
  the second pattern panics. The text after the last span is not appended.
\<close>

fun compileTags ::
  "string \<Rightarrow> (nat \<times> nat) list \<Rightarrow> nat \<Rightarrow> token list \<Rightarrow> panic + (error + token list)" where
  "compileTags template [] last0 tokens = Inr (Inr tokens)"
| "compileTags template ((start, end0) # m) last0 tokens =
     (let tokens1 = (if start > last0 then tokens @ [TString (slice template last0 start)]
                     else tokens);
          item = slice template start end0
      in case FindStringSubmatch item of
           None \<Rightarrow> Inl IndexOutOfRange
         | Some (token, alignment, wd) \<Rightarrow>
             (let tokens2 = tokens1 @ widthTokens alignment wd
              in case tokenToValue token of
                   None \<Rightarrow> Inr (Inl (UnknownToken token))
                 | Some v \<Rightarrow> compileTags template m end0 (tokens2 @ [TInt v])))"

text \<open>The selectors (group 1) of the spans at the offsets \<open>m\<close>.\<close>

definition selectorsOf :: "string \<Rightarrow> (nat \<times> nat) list \<Rightarrow> string list" where
  "selectorsOf template m =
     map (\<lambda>(start, end0).
            case FindStringSubmatch (slice template start end0) of
              Some (token, alignment, wd) \<Rightarrow> token
            | None \<Rightarrow> [])
       m"

text \<open>
  \<open>SetFormat\<close> returns the formatter after the call and the error. Only the last
  statement of the source assigns to the formatter, and it assigns \<open>formatTokens\<close>.
\<close>

definition SetFormat ::
  "TemplateFormatter \<Rightarrow> string \<Rightarrow> panic + (TemplateFormatter \<times> error option)" where
  "SetFormat f template =
     (let m = FindAllStringIndex 0 template
      in if length m = 0 then Inr (f, Some (InvalidTemplate template))
         else case compileTags template m 0 [] of
                Inl p \<Rightarrow> Inl p
              | Inr (Inl e) \<Rightarrow> Inr (f, Some e)
              | Inr (Inr tokens) \<Rightarrow> Inr (f\<lparr>formatTokens := tokens\<rparr>, None))"

text \<open>
  \<open>NewTemplateFormatter\<close>: a new formatter (all fields zero) gets the template string
  and the default message processor, then \<open>SetFormat\<close> compiles the template.
\<close>

definition NewTemplateFormatter ::
  "string \<Rightarrow> panic + (TemplateFormatter option \<times> error option)" where
  "NewTemplateFormatter format =
     (let f = \<lparr>formatString = format, formatTokens = [], levelColoring = Map.empty,
               processMessage = defaultProcessMessage\<rparr>
      in case SetFormat f format of
           Inl p \<Rightarrow> Inl p
         | Inr (f1, Some err) \<Rightarrow> Inr (None, Some err)
         | Inr (f1, None) \<Rightarrow> Inr (Some f1, None))"

definition GetFormat :: "TemplateFormatter \<Rightarrow> string" where
  "GetFormat f = formatString f"

definition SetLevelColoring :: "TemplateFormatter \<Rightarrow> (Level \<rightharpoonup> string) \<Rightarrow> TemplateFormatter" where
  "SetLevelColoring f levelToColors = f\<lparr>levelColoring := levelToColors\<rparr>"

text \<open>The selectors of all spans of a template, in order.\<close>

definition spanSelectors :: "string \<Rightarrow> string list" where
  "spanSelectors template = selectorsOf template (FindAllStringIndex 0 template)"

subsection \<open>Format\<close>

text \<open>Go's integer division truncates towards zero.\<close>

definition quot :: "int \<Rightarrow> int \<Rightarrow> int" where
  "quot a b = sgn a * sgn b * (\<bar>a\<bar> div \<bar>b\<bar>)"

definition formatTime :: "Time \<Rightarrow> int list \<Rightarrow> string" where
  "formatTime t resolution =
     (let ts = fmt_d False 4 (Year t) @ ''-'' @ fmt_d True 2 (Month t) @ ''-''
               @ fmt_d True 2 (Day t) @ '' '' @ fmt_d True 2 (Hour t) @ '':''
               @ fmt_d True 2 (Minute t) @ '':'' @ fmt_d True 2 (Second t)
      in if length resolution = 1 \<and> hd resolution = 1000
         then ts @ ''.'' @ fmt_d True 3 (quot (Nanosecond t) 1000000)
         else ts)"

text \<open>\<open>strings.Split(s, sep)\<close> for a separator of one byte.\<close>

fun Split :: "string \<Rightarrow> char \<Rightarrow> string list" where
  "Split [] sep = [[]]"
| "Split (c # cs) sep =
     (if c = sep then [] # Split cs sep
      else (case Split cs sep of [] \<Rightarrow> [[c]] | x # xs \<Rightarrow> (c # x) # xs))"

definition colorReset :: string where
  "colorReset = CHR 0x1B # ''[0m''"

text \<open>The local variables of \<open>Format\<close> that the loop over the tokens changes.\<close>

record fstate =
  parts :: "string list"
  alignFmt :: string
  width :: int
  processedMessage :: string

text \<open>
  The \<open>switch\<close> in the body of the loop, for a token of type int: it computes the
  text \<open>s\<close> of a field, or records a pending width and alignment. The cases are tried in
  the order of the source; a token that no case matches leaves \<open>s\<close> empty.
\<close>

definition tokenSwitch ::
  "(Level \<Rightarrow> string) \<Rightarrow> TemplateFormatter \<Rightarrow> Record \<Rightarrow> string \<Rightarrow> int \<Rightarrow> fstate
     \<Rightarrow> string \<times> fstate" where
  "tokenSwitch LevelName f r lineColor token st =
     (if token = tfTimeMilliseconds then (formatTime (Time r) [1000], st)
      else if token = tfTime then (formatTime (Time r) [], st)
      else if token = tfName then
        (if length (Name r) = 0 then ''root'' else Name r, st)
      else if token = tfBaseName then
        (if length (Name r) = 0 then ''root'' else last (Split (Name r) CHR ''/''), st)
      else if token = tfLevel then (LevelName (Level r), st)
      else if token = tfMessage then
        (if length (processedMessage st) > 0 then (processedMessage st, st)
         else if length (Message r) > 0 then
           (let pm = processMessage f (Message r) lineColor
            in (pm, st\<lparr>processedMessage := pm\<rparr>))
         else ([], st))
      else if token AND tfFieldWidthMask > 0 then
        (let w = drop_bit tfFieldWidthShift (token AND tfFieldWidthMask)
         in ([], st\<lparr>width := w,
                     alignFmt := (if token AND tfAlignRight > 0
                                  then ''%'' @ itoa w @ ''s''
                                  else ''%-'' @ itoa w @ ''s'')\<rparr>))
      else ([], st))"

text \<open>\<open>if len(s) > width { s = s[:width] }\<close>, on bytes.\<close>

definition truncateTo :: "int \<Rightarrow> string \<Rightarrow> string" where
  "truncateTo w s = (if int (length s) > w then take (nat w) s else s)"

text \<open>
  The rest of the body: a non-empty \<open>s\<close> is padded and cut when a width is pending,
  which resets the pending width, and is appended to \<open>parts\<close>.
\<close>

definition formatInt ::
  "(Level \<Rightarrow> string) \<Rightarrow> TemplateFormatter \<Rightarrow> Record \<Rightarrow> string \<Rightarrow> int \<Rightarrow> fstate \<Rightarrow> fstate" where
  "formatInt LevelName f r lineColor token st =
     (let (s, st1) = tokenSwitch LevelName f r lineColor token st
      in if length s > 0 then
           (if length (alignFmt st1) > 0 then
              (let s1 = Sprintf_s (alignFmt st1) s;
                   s2 = truncateTo (width st1) s1
               in st1\<lparr>parts := parts st1 @ [s2], alignFmt := [], width := 0\<rparr>)
            else st1\<lparr>parts := parts st1 @ [s]\<rparr>)
         else st1)"

definition formatToken ::
  "(Level \<Rightarrow> string) \<Rightarrow> TemplateFormatter \<Rightarrow> Record \<Rightarrow> string \<Rightarrow> fstate \<Rightarrow> token \<Rightarrow> fstate" where
  "formatToken LevelName f r lineColor st token =
     (case token of
        TString t \<Rightarrow> st\<lparr>parts := parts st @ [t]\<rparr>
      | TInt i \<Rightarrow> formatInt LevelName f r lineColor i st)"

text \<open>The local variables at the start of the loop, \<open>parts\<close> apart.\<close>

definition initialState :: "string list \<Rightarrow> fstate" where
  "initialState parts0 = \<lparr>parts = parts0, alignFmt = [], width = 0, processedMessage = []\<rparr>"

text \<open>
  \<open>Format\<close> returns the bytes and the error. A missing key of a Go map reads as the
  empty string, so the inner lookup succeeds whenever the outer test does.
\<close>

definition Format ::
  "(Level \<Rightarrow> string) \<Rightarrow> TemplateFormatter \<Rightarrow> Record \<Rightarrow> string \<times> error option" where
  "Format LevelName f r =
     (if Level r = NOTSET then ([], Some ErrorNotSet)
      else
        let (parts0, colorSet, lineColor) =
              (if (case levelColoring f (Level r) of None \<Rightarrow> [] | Some c \<Rightarrow> c) \<noteq> [] then
                 (case levelColoring f (Level r) of
                    Some c \<Rightarrow> ([c], True, c)
                  | None \<Rightarrow> ([], False, colorReset))
               else ([], False, []));
            st = foldl (formatToken LevelName f r lineColor) (initialState parts0)
                   (formatTokens f);
            parts1 = (if colorSet then parts st @ [colorReset] else parts st)
        in (concat parts1, None))"

text \<open>
  The text the switch computes for the token \<open>v\<close> when it is the first field of a line
  without a line colour.
\<close>

definition fieldText ::
  "(Level \<Rightarrow> string) \<Rightarrow> TemplateFormatter \<Rightarrow> Record \<Rightarrow> int \<Rightarrow> string" where
  "fieldText LevelName f r v = fst (tokenSwitch LevelName f r [] v (initialState []))"

text \<open>
  Building a formatter from a template and rendering one record with it: the compiled
  tokens and the result of \<open>Format\<close>, or \<open>None\<close> when the template does not compile.
\<close>

definition renderWith ::
  "(Level \<Rightarrow> string) \<Rightarrow> string \<Rightarrow> Record \<Rightarrow> (token list \<times> string \<times> error option) option" where
  "renderWith LevelName template r =
     (case NewTemplateFormatter template of
        Inr (Some f, None) \<Rightarrow> Some (formatTokens f, Format LevelName f r)
      | _ \<Rightarrow> None)"

section \<open>Files and writers (package os, as far as the handlers use it)\<close>

text \<open>
  A file is identified by its device and inode numbers, the pair that \<open>statFile\<close> reads
  from \<open>syscall.Stat_t\<close>. The file system maps paths to files and files to contents, and
  keeps the open handles; a \<open>*os.File\<close> is a handle number or the nil pointer (\<open>None\<close>).
  \<open>newFiles\<close> are the identities that files created later will get, in order.
  \<open>stderr\<close> collects the diagnostics that the handlers print.
\<close>

type_synonym fileid = "64 word \<times> 64 word"

record fsys =
  paths :: "string \<rightharpoonup> fileid"
  contents :: "fileid \<Rightarrow> string"
  handles :: "nat \<rightharpoonup> fileid"
  nextHandle :: nat
  newFiles :: "fileid list"
  stderr :: "error list"

text \<open>
  \<open>os.OpenFile(name, O_WRONLY|O_CREATE|O_APPEND or O_TRUNC, 0664)\<close>: an existing file
  is opened (and emptied without the append flag), a missing one is created; creation
  fails when no new file can be made. The result is the new handle or the error.
\<close>

definition OpenFile :: "fsys \<Rightarrow> string \<Rightarrow> bool \<Rightarrow> fsys \<times> (error + nat)" where
  "OpenFile fs name appendFlag =
     (case paths fs name of
        Some fid \<Rightarrow>
          (fs\<lparr>contents := (if appendFlag then contents fs else (contents fs)(fid := [])),
               handles := (handles fs)(nextHandle fs \<mapsto> fid),
               nextHandle := nextHandle fs + 1\<rparr>,
           Inr (nextHandle fs))
      | None \<Rightarrow>
          (case newFiles fs of
             [] \<Rightarrow> (fs, Inl (OpenError name))
           | fid # rest \<Rightarrow>
               (fs\<lparr>paths := (paths fs)(name \<mapsto> fid),
                    contents := (contents fs)(fid := []),
                    handles := (handles fs)(nextHandle fs \<mapsto> fid),
                    nextHandle := nextHandle fs + 1,
                    newFiles := rest\<rparr>,
                Inr (nextHandle fs))))"

text \<open>
  An \<open>io.Writer\<close> value: the nil interface, or a \<open>*os.File\<close> (which may be the nil
  pointer). \<open>Write\<close> on the nil interface panics; on a nil or closed file it returns an
  error; on an open handle it adds the bytes at the end of the file.
\<close>

datatype writer = NilWriter | FileWriter "nat option"

definition Write :: "writer \<Rightarrow> string \<Rightarrow> fsys \<Rightarrow> panic + (fsys \<times> error option)" where
  "Write w msg fs =
     (case w of
        NilWriter \<Rightarrow> Inl NilDereference
      | FileWriter None \<Rightarrow> Inr (fs, Some ErrInvalid)
      | FileWriter (Some fd) \<Rightarrow>
          (case handles fs fd of
             None \<Rightarrow> Inr (fs, Some ErrInvalid)
           | Some fid \<Rightarrow> Inr (fs\<lparr>contents := (contents fs)(fid := contents fs fid @ msg)\<rparr>, None)))"

text \<open>\<open>fp.Sync(); fp.Close()\<close> on a handle; the errors are dropped by the caller.\<close>

definition CloseFile :: "fsys \<Rightarrow> nat \<Rightarrow> fsys" where
  "CloseFile fs fd = fs\<lparr>handles := (handles fs)(fd := None)\<rparr>"

text \<open>
  \<open>os.Stat(name)\<close>: the \<open>FileInfo\<close>, or \<open>None\<close> for the nil \<open>FileInfo\<close> that comes with
  an error. \<open>Sys\<close> is the result of the type assertion \<open>info.Sys().(*syscall.Stat_t)\<close>:
  the device and inode numbers, or \<open>None\<close> when the assertion fails.
\<close>

record FileInfo =
  Sys :: "fileid option"

definition Stat :: "fsys \<Rightarrow> string \<Rightarrow> FileInfo option" where
  "Stat fs name = (case paths fs name of None \<Rightarrow> None | Some fid \<Rightarrow> Some \<lparr>Sys = Some fid\<rparr>)"

section \<open>The stream handler (handlers.go)\<close>

text \<open>
  \<open>StreamFormatter\<close> is an interface value: \<open>None\<close> is nil, otherwise the \<open>Format\<close>
  method. \<open>CommitChannel\<close> is the buffered channel of capacity 100, as the list of the
  records waiting in it and a flag for \<open>close\<close>; \<open>CommitterStop\<close> is unbuffered, so it
  holds nothing and only its closed flag is state.
\<close>

record StreamHandler =
  Writer :: writer
  StreamFormatter :: "(Record \<Rightarrow> string \<times> error option) option"
  LogLevel :: Level
  CommitChannel :: "Record list"
  CommitChannelClosed :: bool
  CommitterStopClosed :: bool
  StreamShutdown :: bool

definition NewStreamHandler :: "writer \<Rightarrow> StreamHandler" where
  "NewStreamHandler w =
     \<lparr>Writer = w, StreamFormatter = None, LogLevel = NOTSET, CommitChannel = [],
      CommitChannelClosed = False, CommitterStopClosed = False, StreamShutdown = False\<rparr>"

definition SetFormatter ::
  "StreamHandler \<Rightarrow> (Record \<Rightarrow> string \<times> error option) option \<Rightarrow> StreamHandler" where
  "SetFormatter h formatter = h\<lparr>StreamFormatter := formatter\<rparr>"

text \<open>\<open>(*StreamHandler).onPreWrite\<close>: the default does nothing.\<close>

definition StreamHandler_onPreWrite :: "StreamHandler \<Rightarrow> StreamHandler" where
  "StreamHandler_onPreWrite h = h"

text \<open>
  The state of a running handler: the handler, the file system, where the goroutine
  that called \<open>Shutdown\<close> stands, and whether a panic has ended the program.
  \<open>SendingStop\<close> is the blocked send on \<open>CommitterStop\<close>; \<open>Closing\<close> is the point after
  the send, before the two \<open>close\<close> calls; \<open>Returned\<close> is after \<open>Shutdown\<close> has returned.
\<close>

datatype shutdownPoint = NotCalled | SendingStop | Closing | Returned

record system =
  handler :: StreamHandler
  files :: fsys
  shutdownAt :: shutdownPoint
  panicked :: bool

text \<open>
  The body of the first case of the \<open>select\<close> in \<open>committer\<close>, for a received record.
  \<open>committer\<close> is a method of \<open>*StreamHandler\<close>, so the hook it calls is
  \<open>(*StreamHandler).onPreWrite\<close>, also when the handler is embedded in a
  \<open>WatchedFileHandler\<close>: Go binds the call to the receiver's static type. A nil formatter
  or a nil writer panics. Write and formatter errors go to stderr.
\<close>

definition commit :: "Record \<Rightarrow> system \<Rightarrow> system" where
  "commit rec s =
     (case StreamFormatter (handler s) of
        None \<Rightarrow> s\<lparr>panicked := True\<rparr>
      | Some format \<Rightarrow>
          (case format rec of
             (msg, Some err) \<Rightarrow>
               (if err = ErrorNotSet then s
                else s\<lparr>files := (files s)\<lparr>stderr := stderr (files s) @ [err]\<rparr>\<rparr>)
           | (msg, None) \<Rightarrow>
               (let msg1 = msg @ [CHR 0x0A];
                    h1 = StreamHandler_onPreWrite (handler s)
                in case Write (Writer h1) msg1 (files s) of
                     Inl p \<Rightarrow> s\<lparr>handler := h1, panicked := True\<rparr>
                   | Inr (fs1, Some err) \<Rightarrow>
                       s\<lparr>handler := h1, files := fs1\<lparr>stderr := stderr fs1 @ [err]\<rparr>\<rparr>
                   | Inr (fs1, None) \<Rightarrow> s\<lparr>handler := h1, files := fs1\<rparr>)))"

text \<open>
  The steps of the goroutines, one per scheduling choice; \<open>None\<close> when the step cannot
  be taken in the state (the goroutine is blocked, or the program has panicked).
  \<^item> \<open>DoHandle rec\<close>: a producer runs \<open>Handle(rec)\<close>, the test of the flag and the send
    taken together; it blocks while the channel holds 100 records.
  \<^item> \<open>CallShutdown\<close>: \<open>Shutdown\<close> up to the send on \<open>CommitterStop\<close>; a later call finds
    the flag set and returns at once.
  \<^item> \<open>ReceiveStop\<close>: the committer takes the second case of the \<open>select\<close>, which needs a
    blocked sender or a closed channel. The \<open>break\<close> leaves the \<open>select\<close>, not the
    \<open>for\<close>: the committer is at the head of its loop again.
  \<^item> \<open>FinishShutdown\<close>: after the send, \<open>Shutdown\<close> closes both channels and returns.
  \<^item> \<open>ReceiveRecord\<close>: the committer takes the first case: the oldest waiting
    record, or the zero value of \<open>Record\<close> when the channel is closed and empty. The zero
    record is the parameter \<open>zero\<close> (the zero value of \<open>Level\<close> is declared outside the two
    source files).
\<close>

datatype action =
    DoHandle Record
  | CallShutdown
  | ReceiveStop
  | FinishShutdown
  | ReceiveRecord

definition step :: "Record \<Rightarrow> action \<Rightarrow> system \<Rightarrow> system option" where
  "step zero a s =
     (if panicked s then None
      else case a of
        DoHandle rec \<Rightarrow>
          (if \<not> StreamShutdown (handler s) then
             (if CommitChannelClosed (handler s) then Some (s\<lparr>panicked := True\<rparr>)
              else if length (CommitChannel (handler s)) < 100 then
                Some (s\<lparr>handler := (handler s)\<lparr>CommitChannel := CommitChannel (handler s) @ [rec]\<rparr>\<rparr>)
              else None)
           else Some s)
      | CallShutdown \<Rightarrow>
          (if \<not> StreamShutdown (handler s) then
             Some (s\<lparr>handler := (handler s)\<lparr>StreamShutdown := True\<rparr>, shutdownAt := SendingStop\<rparr>)
           else Some s)
      | ReceiveStop \<Rightarrow>
          (if shutdownAt s = SendingStop then Some (s\<lparr>shutdownAt := Closing\<rparr>)
           else if CommitterStopClosed (handler s) then Some s
           else None)
      | FinishShutdown \<Rightarrow>
          (if shutdownAt s = Closing then
             Some (s\<lparr>handler := (handler s)\<lparr>CommitterStopClosed := True,
                                             CommitChannelClosed := True\<rparr>,
                     shutdownAt := Returned\<rparr>)
           else None)
      | ReceiveRecord \<Rightarrow>
          (case CommitChannel (handler s) of
             rec # rest \<Rightarrow> Some (commit rec (s\<lparr>handler := (handler s)\<lparr>CommitChannel := rest\<rparr>\<rparr>))
           | [] \<Rightarrow> (if CommitChannelClosed (handler s) then Some (commit zero s) else None)))"

fun run :: "Record \<Rightarrow> action list \<Rightarrow> system \<Rightarrow> system option" where
  "run zero [] s = Some s"
| "run zero (a # as) s = (case step zero a s of None \<Rightarrow> None | Some s1 \<Rightarrow> run zero as s1)"

text \<open>
  The records that the calls of \<open>Handle\<close> in a schedule put into the channel: those before
  the first call of \<open>Shutdown\<close>.
\<close>

definition enqueued :: "action list \<Rightarrow> Record list" where
  "enqueued sched =
     concat (map (\<lambda>a. case a of DoHandle rec \<Rightarrow> [rec] | _ \<Rightarrow> [])
               (takeWhile (\<lambda>a. a \<noteq> CallShutdown) sched))"

text \<open>The bytes that the committer writes for a list of records, in order.\<close>

definition linesOf :: "(Record \<Rightarrow> string \<times> error option) \<Rightarrow> Record list \<Rightarrow> string" where
  "linesOf format recs =
     concat (map (\<lambda>rec. case format rec of
                           (msg, None) \<Rightarrow> msg @ [CHR 0x0A]
                         | (msg, Some err) \<Rightarrow> [])
               recs)"

text \<open>A handler just made by \<open>NewStreamHandler\<close>, with a formatter set, and its committer.\<close>

definition startSystem ::
  "writer \<Rightarrow> (Record \<Rightarrow> string \<times> error option) option \<Rightarrow> fsys \<Rightarrow> system" where
  "startSystem w formatter fs =
     \<lparr>handler = SetFormatter (NewStreamHandler w) formatter, files = fs,
      shutdownAt = NotCalled, panicked = False\<rparr>"

text \<open>\<open>NewFileHandler\<close>: the file is opened, the header written, the handler made.\<close>

definition NewFileHandler ::
  "string \<Rightarrow> bool \<Rightarrow> bool \<Rightarrow> fsys \<Rightarrow> StreamHandler option \<times> fsys \<times> error option" where
  "NewFileHandler name appendFlag writeStartHeader fs =
     (case OpenFile fs name appendFlag of
        (fs1, Inl err) \<Rightarrow> (None, fs1, Some err)
      | (fs1, Inr fd) \<Rightarrow>
          (let fs2 = (if writeStartHeader then
                        (case Write (FileWriter (Some fd)) (''START LOGS'' @ [CHR 0x0A]) fs1 of
                           Inr (fs3, err) \<Rightarrow> fs3
                         | Inl p \<Rightarrow> fs1)
                      else fs1)
           in (Some (NewStreamHandler (FileWriter (Some fd))), fs2, None)))"

section \<open>The watched file handler (handlers.go)\<close>

text \<open>
  \<open>stream\<close> is the embedded \<open>*StreamHandler\<close>; \<open>appendMode\<close> is the field \<open>append\<close>.
  No statement of the source assigns \<open>fp\<close>.
\<close>

record WatchedFileHandler =
  stream :: StreamHandler
  fp :: "nat option"
  filename :: string
  appendMode :: bool
  inode :: "64 word"
  dev :: "64 word"

text \<open>
  \<open>statFile\<close> drops the error of \<open>os.Stat\<close> and calls \<open>info.Sys()\<close>: with the nil
  \<open>FileInfo\<close> of a failed stat the call panics. The pair (0, 0) is returned only when the
  type assertion fails.
\<close>

definition statFile :: "WatchedFileHandler \<Rightarrow> fsys \<Rightarrow> panic + (64 word \<times> 64 word)" where
  "statFile h fs =
     (case Stat fs (filename h) of
        None \<Rightarrow> Inl NilDereference
      | Some info \<Rightarrow>
          (case Sys info of
             None \<Rightarrow> Inr (0, 0)
           | Some (d, ino) \<Rightarrow> Inr (d, ino)))"

definition fileHasMoved :: "WatchedFileHandler \<Rightarrow> fsys \<Rightarrow> panic + bool" where
  "fileHasMoved h fs =
     (case statFile h fs of
        Inl p \<Rightarrow> Inl p
      | Inr (d, ino) \<Rightarrow> Inr (d \<noteq> dev h \<or> ino \<noteq> inode h))"

definition WatchedFileHandler_close :: "WatchedFileHandler \<Rightarrow> fsys \<Rightarrow> WatchedFileHandler \<times> fsys" where
  "WatchedFileHandler_close h fs =
     (case fp h of
        Some fd \<Rightarrow> (h\<lparr>fp := None, stream := (stream h)\<lparr>Writer := NilWriter\<rparr>\<rparr>, CloseFile fs fd)
      | None \<Rightarrow> (h, fs))"

text \<open>
  \<open>open\<close>: the new stream handler is made with the writer \<open>h.fp\<close>, then its \<open>Writer\<close> is
  set to the file just opened, and the identity of the path is captured.
\<close>

definition WatchedFileHandler_open ::
  "WatchedFileHandler \<Rightarrow> fsys \<Rightarrow> panic + (WatchedFileHandler \<times> fsys \<times> error option)" where
  "WatchedFileHandler_open h fs =
     (case OpenFile fs (filename h) (appendMode h) of
        (fs1, Inl err) \<Rightarrow> Inr (h, fs1, Some err)
      | (fs1, Inr fd) \<Rightarrow>
          (let s = NewStreamHandler (FileWriter (fp h));
               h1 = h\<lparr>stream := s\<lparr>Writer := FileWriter (Some fd)\<rparr>\<rparr>
           in case statFile h1 fs1 of
                Inl p \<Rightarrow> Inl p
              | Inr (d, ino) \<Rightarrow> Inr (h1\<lparr>dev := d, inode := ino\<rparr>, fs1, None)))"

text \<open>
  \<open>(*WatchedFileHandler).onPreWrite\<close>. The error of \<open>open\<close> is dropped; afterwards the
  writer is \<open>h.fp\<close>.
\<close>

definition WatchedFileHandler_onPreWrite ::
  "WatchedFileHandler \<Rightarrow> fsys \<Rightarrow> panic + (WatchedFileHandler \<times> fsys)" where
  "WatchedFileHandler_onPreWrite h fs =
     (case fileHasMoved h fs of
        Inl p \<Rightarrow> Inl p
      | Inr False \<Rightarrow> Inr (h, fs)
      | Inr True \<Rightarrow>
          (case WatchedFileHandler_close h fs of
             (h1, fs1) \<Rightarrow>
               (case WatchedFileHandler_open h1 fs1 of
                  Inl p \<Rightarrow> Inl p
                | Inr (h2, fs2, err) \<Rightarrow>
                    Inr (h2\<lparr>stream := (stream h2)\<lparr>Writer := FileWriter (fp h2)\<rparr>\<rparr>, fs2))))"

definition NewWatchedFileHandler ::
  "string \<Rightarrow> bool \<Rightarrow> bool \<Rightarrow> fsys
     \<Rightarrow> panic + (WatchedFileHandler option \<times> fsys \<times> error option)" where
  "NewWatchedFileHandler name appendFlag writeStartHeader fs =
     (let wfh = \<lparr>stream = NewStreamHandler NilWriter, fp = None, filename = name,
                 appendMode = appendFlag, inode = 0, dev = 0\<rparr>
      in case WatchedFileHandler_open wfh fs of
           Inl p \<Rightarrow> Inl p
         | Inr (h, fs1, Some err) \<Rightarrow> Inr (None, fs1, Some err)
         | Inr (h, fs1, None) \<Rightarrow>
             (if writeStartHeader then
                (case Write (Writer (stream h)) (''START LOGS'' @ [CHR 0x0A]) fs1 of
                   Inl p \<Rightarrow> Inl p
                 | Inr (fs2, Some err) \<Rightarrow> Inr (None, fs2, Some err)
                 | Inr (fs2, None) \<Rightarrow> Inr (Some h, fs2, None))
              else Inr (Some h, fs1, None)))"

text \<open>
  The running watched handler: the committer started by \<open>NewStreamHandler\<close> inside
  \<open>open\<close> runs on the embedded stream handler, so a step of the watched handler is a
  step of the system of its \<open>stream\<close>.
\<close>

definition watchedSystem :: "WatchedFileHandler \<Rightarrow> fsys \<Rightarrow> system" where
  "watchedSystem h fs = \<lparr>handler = stream h, files = fs, shutdownAt = NotCalled, panicked = False\<rparr>"

section \<open>Example values\<close>

definition exampleLevelName :: "Level \<Rightarrow> string" where
  "exampleLevelName l =
     (case l of NOTSET \<Rightarrow> ''NOTSET'' | DEBUG \<Rightarrow> ''DEBUG'' | INFO \<Rightarrow> ''INFO''
      | WARNING \<Rightarrow> ''WARNING'' | ERROR \<Rightarrow> ''ERROR'' | FATAL \<Rightarrow> ''FATAL'')"

definition exampleTime :: Time where
  "exampleTime = \<lparr>Year = 2024, Month = 3, Day = 7, Hour = 9, Minute = 5, Second = 1,
                   Nanosecond = 123456789\<rparr>"

definition exampleRecord :: "string \<Rightarrow> Level \<Rightarrow> string \<Rightarrow> Record" where
  "exampleRecord n l m = \<lparr>Time = exampleTime, Name = n, Level = l, Message = m\<rparr>"

definition exampleFormatter :: "token list \<Rightarrow> TemplateFormatter" where
  "exampleFormatter ts = \<lparr>formatString = ''{name}'', formatTokens = ts,
                           levelColoring = Map.empty, processMessage = defaultProcessMessage\<rparr>"

text \<open>
  A file system where the path \<open>app.log\<close> names an empty file, and a formatter for the
  template \<open>{message}\<close>.
\<close>

definition exampleFiles :: fsys where
  "exampleFiles =
     \<lparr>paths = [''app.log'' \<mapsto> (1, 10)], contents = (\<lambda>fid. []), handles = Map.empty,
      nextHandle = 3, newFiles = [(1, 11)], stderr = []\<rparr>"

definition messageFormat :: "Record \<Rightarrow> string \<times> error option" where
  "messageFormat = Format exampleLevelName (exampleFormatter [TInt 5])"

definition exampleZero :: Record where
  "exampleZero =
     \<lparr>Time = \<lparr>Year = 1, Month = 1, Day = 1, Hour = 0, Minute = 0, Second = 0, Nanosecond = 0\<rparr>,
      Name = [], Level = NOTSET, Message = []\<rparr>"

section \<open>Properties of Format\<close>

text \<open>
  C8. For every record whose level is NOTSET, whatever its other fields, the formatter
  and the template it was compiled from, Format returns the empty byte sequence together
  with the error ErrorNotSet: the test is the first statement, nothing is rendered.
\<close>

theorem Format_NOTSET:
  "Level r = NOTSET \<Longrightarrow> Format LevelName f r = ([], Some ErrorNotSet)"
  by (simp add: Format_def)

theorem Format_NOTSET_witness:
  "Level (exampleRecord ''abc'' NOTSET ''hi'') = NOTSET
   \<and> Format exampleLevelName (exampleFormatter [TInt 1280, TInt 2])
        (exampleRecord ''abc'' NOTSET ''hi'') = ([], Some ErrorNotSet)"
  using Format_NOTSET [of "exampleRecord ''abc'' NOTSET ''hi''" exampleLevelName
      "exampleFormatter [TInt 1280, TInt 2]"]
  by (simp add: exampleRecord_def)

section \<open>Properties of SetFormat\<close>

subsection \<open>Every span found by the first pattern matches the second\<close>

lemma spanEnd_Some:
  assumes "spanEnd s = Some n"
  shows "\<exists>body rest. s = body @ CHR ''}'' # rest \<and> body \<noteq> [] \<and> CHR ''}'' \<notin> set body
           \<and> n = length body + 1"
proof -
  let ?P = "\<lambda>c. c \<noteq> CHR ''}''"
  let ?b = "takeWhile ?P s"
  from assms have b: "?b \<noteq> []" and l: "length ?b \<noteq> length s" and n: "n = length ?b + 1"
    by (auto simp: spanEnd_def Let_def split: if_splits)
  have d: "dropWhile ?P s \<noteq> []"
    using l takeWhile_dropWhile_id [of ?P s] by (metis append_Nil2)
  then obtain x rest where xr: "dropWhile ?P s = x # rest"
    by (cases "dropWhile ?P s") auto
  have "\<not> ?P (hd (dropWhile ?P s))" using d by (rule hd_dropWhile)
  with xr have x: "x = CHR ''}''" by simp
  have "s = ?b @ CHR ''}'' # rest"
    using takeWhile_dropWhile_id [of ?P s] xr x by simp
  moreover have "CHR ''}'' \<notin> set ?b"
    by (auto dest: set_takeWhileD)
  ultimately show ?thesis using b n by blast
qed

lemma FindAll_items:
  "(a, b) \<in> set (FindAllStringIndex i s) \<Longrightarrow>
     i \<le> a \<and> b \<le> i + length s \<and>
     (\<exists>body. body \<noteq> [] \<and> CHR ''}'' \<notin> set body
        \<and> take (b - a) (drop (a - i) s) = CHR ''{'' # body @ [CHR ''}''])"
proof (induction i s rule: FindAllStringIndex.induct)
  case (1 i)
  then show ?case by simp
next
  case (2 i c s)
  show ?case
  proof (cases "c = CHR ''{''")
    case False
    with 2 have "(a, b) \<in> set (FindAllStringIndex (i + 1) s)" by simp
    from "2.IH"(3) [OF False this] obtain body where
      h: "i + 1 \<le> a" "b \<le> i + 1 + length s" "body \<noteq> []" "CHR ''}'' \<notin> set body"
        "take (b - a) (drop (a - (i + 1)) s) = CHR ''{'' # body @ [CHR ''}'']"
      by blast
    from h(1) have "a - i = Suc (a - (i + 1))" by simp
    with h show ?thesis by auto
  next
    case True
    show ?thesis
    proof (cases "spanEnd s")
      case None
      with 2 True have "(a, b) \<in> set (FindAllStringIndex (i + 1) s)" by simp
      from "2.IH"(1) [OF True None this] obtain body where
        h: "i + 1 \<le> a" "b \<le> i + 1 + length s" "body \<noteq> []" "CHR ''}'' \<notin> set body"
          "take (b - a) (drop (a - (i + 1)) s) = CHR ''{'' # body @ [CHR ''}'']"
        by blast
      from h(1) have "a - i = Suc (a - (i + 1))" by simp
      with h show ?thesis by auto
    next
      case (Some n)
      from spanEnd_Some [OF Some] obtain body rest where
        s: "s = body @ CHR ''}'' # rest" "body \<noteq> []" "CHR ''}'' \<notin> set body"
          "n = length body + 1"
        by blast
      from 2 True Some have
        "(a, b) = (i, i + 1 + n) \<or> (a, b) \<in> set (FindAllStringIndex (i + 1 + n) (drop n s))"
        by simp
      then show ?thesis
      proof
        assume "(a, b) = (i, i + 1 + n)"
        then have ab: "a = i" "b = i + 1 + n" by auto
        have "take (b - a) (drop (a - i) (c # s)) = CHR ''{'' # body @ [CHR ''}'']"
          using ab s True by simp
        moreover have "b \<le> i + length (c # s)" using ab s by simp
        ultimately show ?thesis using ab s by blast
      next
        assume "(a, b) \<in> set (FindAllStringIndex (i + 1 + n) (drop n s))"
        from "2.IH"(2) [OF True Some this] obtain body' where
          h: "i + 1 + n \<le> a" "b \<le> i + 1 + n + length (drop n s)" "body' \<noteq> []"
            "CHR ''}'' \<notin> set body'"
            "take (b - a) (drop (a - (i + 1 + n)) (drop n s)) = CHR ''{'' # body' @ [CHR ''}'']"
          by blast
        have nl: "n \<le> length s" using s by simp
        from h(1) have e: "a - i = Suc (a - (i + 1 + n) + n)" by simp
        have "take (b - a) (drop (a - i) (c # s)) = CHR ''{'' # body' @ [CHR ''}'']"
          using h(5) by (simp add: e)
        moreover have "b \<le> i + length (c # s)" using h(2) nl by simp
        moreover have "i \<le> a" using h(1) by simp
        ultimately show ?thesis using h(3,4) by blast
      qed
    qed
  qed
qed

lemma FindStringSubmatch_span:
  "body \<noteq> [] \<Longrightarrow> CHR ''}'' \<notin> set body \<Longrightarrow>
   FindStringSubmatch (CHR ''{'' # body @ [CHR ''}'']) = Some (specSplit [hd body] (tl body))"
  by (simp add: FindStringSubmatch_def)

lemma spans_match:
  assumes "(a, b) \<in> set (FindAllStringIndex 0 t)"
  shows "\<exists>r. FindStringSubmatch (slice t a b) = Some r"
proof -
  from FindAll_items [OF assms] obtain body where
    "body \<noteq> []" "CHR ''}'' \<notin> set body" "slice t a b = CHR ''{'' # body @ [CHR ''}'']"
    by (auto simp: slice_def)
  then have "FindStringSubmatch (slice t a b) = Some (specSplit [hd body] (tl body))"
    by (simp add: FindStringSubmatch_span)
  then show ?thesis by blast
qed

lemma compileTags_result:
  assumes "\<forall>(a, b) \<in> set m. \<exists>r. FindStringSubmatch (slice t a b) = Some r"
  shows "(\<exists>toks. compileTags t m l ts = Inr (Inr toks)
            \<and> (\<forall>tok \<in> set (selectorsOf t m). tokenToValue tok \<noteq> None))
       \<or> (\<exists>tok. compileTags t m l ts = Inr (Inl (UnknownToken tok))
            \<and> tok \<in> set (selectorsOf t m) \<and> tokenToValue tok = None)"
  using assms
proof (induction m arbitrary: l ts)
  case Nil
  then show ?case by (simp add: selectorsOf_def)
next
  case (Cons ab m)
  obtain a b where ab: "ab = (a, b)" by (cases ab)
  from Cons.prems ab obtain tok al wd where
    r: "FindStringSubmatch (slice t a b) = Some (tok, al, wd)"
    by (auto intro: prod_cases3)
  from Cons.prems have m: "\<forall>(a, b) \<in> set m. \<exists>r. FindStringSubmatch (slice t a b) = Some r"
    by simp
  have sel: "selectorsOf t (ab # m) = tok # selectorsOf t m"
    using ab r by (simp add: selectorsOf_def)
  show ?case
  proof (cases "tokenToValue tok")
    case None
    then have "compileTags t (ab # m) l ts = Inr (Inl (UnknownToken tok))"
      using ab r by (simp add: Let_def)
    with None sel show ?thesis by simp
  next
    case (Some v)
    define ts' where
      "ts' = ((if a > l then ts @ [TString (slice t l a)] else ts) @ widthTokens al wd) @ [TInt v]"
    have c: "compileTags t (ab # m) l ts = compileTags t m b ts'"
      using ab r Some by (simp add: Let_def ts'_def)
    from Cons.IH [OF m, of b ts'] show ?thesis
      unfolding c sel using Some by auto
  qed
qed


lemma spanEnd_span:
  "body \<noteq> [] \<Longrightarrow> CHR ''}'' \<notin> set body \<Longrightarrow>
   spanEnd (body @ CHR ''}'' # post) = Some (length body + 1)"
proof -
  assume b: "body \<noteq> []" and n: "CHR ''}'' \<notin> set body"
  have "takeWhile (\<lambda>c. c \<noteq> CHR ''}'') (body @ CHR ''}'' # post) = body"
    using n by (subst takeWhile_append2) auto
  then show ?thesis using b by (simp add: spanEnd_def Let_def)
qed

lemma FindAll_nonempty:
  "body \<noteq> [] \<Longrightarrow> CHR ''}'' \<notin> set body \<Longrightarrow>
   FindAllStringIndex i (pre @ CHR ''{'' # body @ CHR ''}'' # post) \<noteq> []"
proof (induction pre arbitrary: i)
  case Nil
  then show ?case by (simp add: spanEnd_span)
next
  case (Cons c pre)
  then show ?case by (simp split: option.splits)
qed

lemma FindAll_empty_iff:
  "FindAllStringIndex 0 t = [] \<longleftrightarrow>
   \<not> (\<exists>pre body post. t = pre @ CHR ''{'' # body @ CHR ''}'' # post
         \<and> body \<noteq> [] \<and> CHR ''}'' \<notin> set body)"
proof
  assume e: "FindAllStringIndex 0 t = []"
  show "\<not> (\<exists>pre body post. t = pre @ CHR ''{'' # body @ CHR ''}'' # post
         \<and> body \<noteq> [] \<and> CHR ''}'' \<notin> set body)"
    using e FindAll_nonempty [of _ 0] by metis
next
  assume n: "\<not> (\<exists>pre body post. t = pre @ CHR ''{'' # body @ CHR ''}'' # post
         \<and> body \<noteq> [] \<and> CHR ''}'' \<notin> set body)"
  show "FindAllStringIndex 0 t = []"
  proof (rule ccontr)
    assume "FindAllStringIndex 0 t \<noteq> []"
    then obtain a b where ab: "(a, b) \<in> set (FindAllStringIndex 0 t)"
      by (cases "FindAllStringIndex 0 t") auto
    from FindAll_items [OF ab] obtain body where
      h: "body \<noteq> []" "CHR ''}'' \<notin> set body"
        "take (b - a) (drop a t) = CHR ''{'' # body @ [CHR ''}'']"
      by auto
    have "t = take a t @ take (b - a) (drop a t) @ drop (b - a) (drop a t)"
      by (metis append_take_drop_id)
    with h have "t = take a t @ CHR ''{'' # body @ CHR ''}'' # drop (b - a) (drop a t)"
      by simp
    with h n show False by blast
  qed
qed

lemma SetFormat_cases:
  "FindAllStringIndex 0 t = [] \<and> SetFormat f t = Inr (f, Some (InvalidTemplate t))
   \<or> FindAllStringIndex 0 t \<noteq> []
      \<and> (\<exists>toks. SetFormat f t = Inr (f\<lparr>formatTokens := toks\<rparr>, None)
            \<and> (\<forall>tok \<in> set (spanSelectors t). tokenToValue tok \<noteq> None))
   \<or> FindAllStringIndex 0 t \<noteq> []
      \<and> (\<exists>tok. SetFormat f t = Inr (f, Some (UnknownToken tok))
            \<and> tok \<in> set (spanSelectors t) \<and> tokenToValue tok = None)"
proof (cases "FindAllStringIndex 0 t = []")
  case True
  then show ?thesis by (simp add: SetFormat_def)
next
  case False
  have "\<forall>(a, b) \<in> set (FindAllStringIndex 0 t). \<exists>r. FindStringSubmatch (slice t a b) = Some r"
    using spans_match by blast
  from compileTags_result [OF this, of 0 "[]"] False show ?thesis
    by (auto simp: SetFormat_def spanSelectors_def)
qed

text \<open>
  C9. SetFormat returns the invalid-template error exactly when the template contains no
  bracketed span (an opening brace, at least one byte other than a closing brace, a
  closing brace), and an unknown-token error exactly when the selector of some span is
  not one of the six recognised names. Whenever it returns an error the formatter is the
  one it was given: no token sequence is installed. It never panics.
\<close>

theorem SetFormat_failures:
  "((\<exists>f' x. SetFormat f t = Inr (f', Some (InvalidTemplate x)))
      \<longleftrightarrow> \<not> (\<exists>pre body post. t = pre @ CHR ''{'' # body @ CHR ''}'' # post
                 \<and> body \<noteq> [] \<and> CHR ''}'' \<notin> set body))
   \<and> ((\<exists>f' x. SetFormat f t = Inr (f', Some (UnknownToken x)))
      \<longleftrightarrow> (\<exists>tok \<in> set (spanSelectors t). tokenToValue tok = None))
   \<and> (\<forall>f' err. SetFormat f t = Inr (f', Some err) \<longrightarrow> f' = f)
   \<and> (\<forall>p. SetFormat f t \<noteq> Inl p)"
proof -
  have e: "FindAllStringIndex 0 t = [] \<Longrightarrow> spanSelectors t = []"
    by (simp add: spanSelectors_def selectorsOf_def)
  from SetFormat_cases [of t f] show ?thesis
  proof (elim disjE)
    assume "FindAllStringIndex 0 t = [] \<and> SetFormat f t = Inr (f, Some (InvalidTemplate t))"
    then show ?thesis using e FindAll_empty_iff [of t] by auto
  next
    assume "FindAllStringIndex 0 t \<noteq> []
      \<and> (\<exists>toks. SetFormat f t = Inr (f\<lparr>formatTokens := toks\<rparr>, None)
            \<and> (\<forall>tok \<in> set (spanSelectors t). tokenToValue tok \<noteq> None))"
    then show ?thesis using FindAll_empty_iff [of t] by auto
  next
    assume "FindAllStringIndex 0 t \<noteq> []
      \<and> (\<exists>tok. SetFormat f t = Inr (f, Some (UnknownToken tok))
            \<and> tok \<in> set (spanSelectors t) \<and> tokenToValue tok = None)"
    then show ?thesis using FindAll_empty_iff [of t] by auto
  qed
qed

theorem SetFormat_failures_witness:
  "SetFormat (exampleFormatter [TInt 2]) ''no braces here''
     = Inr (exampleFormatter [TInt 2], Some (InvalidTemplate ''no braces here''))
   \<and> spanSelectors ''{name} {bogus}'' = [''name'', ''bogus'']
   \<and> tokenToValue ''bogus'' = None
   \<and> SetFormat (exampleFormatter [TInt 2]) ''{name} {bogus}''
     = Inr (exampleFormatter [TInt 2], Some (UnknownToken ''bogus''))"
proof -
  have a: "SetFormat (exampleFormatter [TInt 2]) ''no braces here''
     = Inr (exampleFormatter [TInt 2], Some (InvalidTemplate ''no braces here''))"
    by (simp add: SetFormat_def)
  have b: "spanSelectors ''{name} {bogus}'' = [''name'', ''bogus'']"
    by code_simp
  have c: "tokenToValue ''bogus'' = None"
    by code_simp
  have d: "compileTags ''{name} {bogus}'' (FindAllStringIndex 0 ''{name} {bogus}'') 0 []
            = Inr (Inl (UnknownToken ''bogus''))"
    by code_simp
  have e: "FindAllStringIndex 0 ''{name} {bogus}'' \<noteq> []"
    by code_simp
  have "SetFormat (exampleFormatter [TInt 2]) ''{name} {bogus}''
     = Inr (exampleFormatter [TInt 2], Some (UnknownToken ''bogus''))"
    using d e by (simp add: SetFormat_def del: FindAllStringIndex.simps compileTags.simps)
  with a b c show ?thesis
    using SetFormat_failures [of "exampleFormatter [TInt 2]" "''{name} {bogus}''"]
    by simp
qed

section \<open>Width directives\<close>

subsection \<open>Padding, decimal conversion and the width token\<close>

lemma RuneCount_le: "RuneCountInString s \<le> length s"
proof (induction s rule: RuneCountInString.induct)
  case (1 s)
  show ?case
  proof (cases "s = []")
    case True
    then show ?thesis by (simp add: RuneCountInString.simps)
  next
    case False
    from "1.IH" [OF False] have a: "RuneCountInString (drop (runeStep s) s) \<le> length s - runeStep s"
      by simp
    have b: "0 < runeStep s" by (rule runeStep_pos)
    have c: "0 < length s" using False by simp
    have "Suc (RuneCountInString (drop (runeStep s) s)) \<le> length s"
      using a b c by arith
    then show ?thesis
      by (subst RuneCountInString.simps) (simp add: False)
  qed
qed

lemma length_padString: "wid \<le> length (padString l wid s)"
proof -
  have "wid \<le> length s + (wid - RuneCountInString s)"
    using RuneCount_le [of s] by arith
  then show ?thesis by (simp add: padString_def Let_def add.commute)
qed

lemma length_truncate_pad:
  "0 \<le> w \<Longrightarrow> int (length (truncateTo w (padString l (nat w) s))) = w"
  using length_padString [of "nat w" l s] by (auto simp: truncateTo_def)

lemma tok_eq: "tfFieldWidth + push_bit tfFieldWidthShift (w - 1) = push_bit 8 w"
  by (simp add: tfFieldWidth_def tfFieldWidthShift_def push_bit_eq_mult algebra_simps)

lemma mask_eq: "tfFieldWidthMask = push_bit 8 255"
  by (simp add: tfFieldWidthMask_def push_bit_eq_mult)

lemma and255: "0 \<le> w \<Longrightarrow> w < 256 \<Longrightarrow> (w::int) AND 255 = w"
proof -
  assume a: "0 \<le> w" "w < 256"
  have "w AND mask 8 = take_bit 8 w" by (simp add: take_bit_eq_mask)
  also have "\<dots> = w" using a by (simp add: take_bit_eq_mod)
  finally show ?thesis by (simp add: mask_eq_exp_minus_1)
qed

lemma tok_mask: "0 \<le> w \<Longrightarrow> w < 256 \<Longrightarrow>
   (tfFieldWidth + push_bit tfFieldWidthShift (w - 1)) AND tfFieldWidthMask = push_bit 8 w"
  by (simp only: tok_eq mask_eq flip: push_bit_and) (simp add: and255)

lemma tok_decode: "0 \<le> w \<Longrightarrow> w < 256 \<Longrightarrow>
   drop_bit tfFieldWidthShift ((tfFieldWidth + push_bit tfFieldWidthShift (w - 1)) AND tfFieldWidthMask) = w"
  by (simp only: tok_mask) (simp add: tfFieldWidthShift_def drop_bit_eq_div push_bit_eq_mult)

lemma tok_noalign: "0 \<le> w \<Longrightarrow> w < 256 \<Longrightarrow>
   (tfFieldWidth + push_bit tfFieldWidthShift (w - 1)) AND tfAlignRight = 0"
proof -
  assume a: "0 \<le> w" "w < 256"
  have t: "tfAlignRight = 2 ^ 16" by (simp add: tfAlignRight_def)
  have "push_bit 8 w div 65536 = 0"
    using a by (simp add: push_bit_eq_mult div_pos_pos_trivial)
  then have nb: "\<not> bit (push_bit 8 w) 16"
    by (simp add: bit_iff_odd)
  have "push_bit 8 w AND (2::int) ^ 16 = 0"
    by (subst and_exp_eq_0_iff_not_bit) (rule nb)
  then show ?thesis by (simp only: tok_eq t)
qed

lemma isDigit_char_of: "d < 10 \<Longrightarrow> isDigit (char_of (48 + d :: nat))"
  by (simp add: isDigit_def)

lemma digitVal_char_of: "d < 10 \<Longrightarrow> digitVal (char_of (48 + d :: nat)) = d"
  by (simp add: digitVal_def)

lemma natDigits_digits: "list_all isDigit (natDigits n)"
proof (induction n rule: natDigits.induct)
  case (1 n)
  show ?case
  proof (cases "n < 10")
    case True
    then show ?thesis by (subst natDigits.simps) (simp add: isDigit_char_of)
  next
    case False
    with 1 show ?thesis by (subst natDigits.simps) (simp add: isDigit_char_of)
  qed
qed

lemma natDigits_nonempty: "natDigits n \<noteq> []"
  by (subst natDigits.simps) simp

lemma parseDigits_snoc: "parseDigits (ds @ [c]) = 10 * parseDigits ds + digitVal c"
  by (simp add: parseDigits_def)

lemma parseDigits_natDigits: "parseDigits (natDigits n) = n"
proof (induction n rule: natDigits.induct)
  case (1 n)
  show ?case
  proof (cases "n < 10")
    case True
    then show ?thesis
      by (subst natDigits.simps) (simp add: parseDigits_def digitVal_char_of)
  next
    case False
    with 1 have "parseDigits (natDigits (n div 10)) = n div 10" by simp
    with False show ?thesis
      by (subst natDigits.simps) (simp add: parseDigits_snoc digitVal_char_of)
  qed
qed

lemma hd_natDigits: "0 < n \<Longrightarrow> hd (natDigits n) \<noteq> CHR ''0''"
proof (induction n rule: natDigits.induct)
  case (1 n)
  show ?case
  proof (cases "n < 10")
    case True
    have "char_of (48 + n) \<noteq> CHR ''0''"
      using True "1.prems" by (simp add: char_of_eq_iff take_bit_eq_mod)
    then show ?thesis using True
      by (subst natDigits.simps) simp
  next
    case False
    then have "0 < n div 10" by simp
    with 1 False have "hd (natDigits (n div 10)) \<noteq> CHR ''0''" by simp
    with False show ?thesis
      by (subst natDigits.simps) (simp add: natDigits_nonempty)
  qed
qed

lemma isDigit_hd: "ds \<noteq> [] \<Longrightarrow> list_all isDigit ds \<Longrightarrow>
    hd ds \<noteq> CHR ''-'' \<and> hd ds \<noteq> CHR ''+'' \<and> CHR ''}'' \<notin> set ds"
  by (cases ds) (auto simp: isDigit_def list_all_iff)

lemma takeWhile_digits: "list_all isDigit ds \<Longrightarrow>
   takeWhile isDigit (ds @ ''s'') = ds \<and> dropWhile isDigit (ds @ ''s'') = ''s''"
  by (induction ds) (auto simp: isDigit_def)

lemma Sprintf_left:
  assumes "0 < w"
  shows "Sprintf_s (''%-'' @ itoa w @ ''s'') s = padString True (nat w) s"
proof -
  have i: "itoa w = natDigits (nat w)" using assms by (simp add: itoa_def)
  have d: "list_all isDigit (itoa w)" "itoa w \<noteq> []" "hd (itoa w) \<noteq> CHR ''0''"
    "parseDigits (itoa w) = nat w"
    using assms by (simp_all add: i natDigits_digits natDigits_nonempty hd_natDigits
        parseDigits_natDigits)
  show ?thesis
    using d takeWhile_digits [OF d(1)] by (simp add: Sprintf_s_def Let_def)
qed

lemma Sprintf_right:
  assumes "0 < w"
  shows "Sprintf_s (''%'' @ itoa w @ ''s'') s = padString False (nat w) s"
proof -
  have i: "itoa w = natDigits (nat w)" using assms by (simp add: itoa_def)
  have d: "list_all isDigit (itoa w)" "itoa w \<noteq> []" "hd (itoa w) \<noteq> CHR ''0''"
    "parseDigits (itoa w) = nat w"
    using assms by (simp_all add: i natDigits_digits natDigits_nonempty hd_natDigits
        parseDigits_natDigits)
  have h: "hd (itoa w @ ''s'') \<noteq> CHR ''-''"
    using d(1,2) isDigit_hd [of "itoa w"] by simp
  show ?thesis
    using d h takeWhile_digits [OF d(1)] by (simp add: Sprintf_s_def Let_def)
qed

lemma selector_values:
  "tokenToValue sel = Some v \<Longrightarrow> v \<in> {0, 1, 2, 3, 4, 5}"
  by (auto simp: tokenToValue_def tfTime_def tfTimeMilliseconds_def tfName_def
        tfBaseName_def tfLevel_def tfMessage_def split: if_splits)

lemma selector_chars:
  "tokenToValue sel = Some v \<Longrightarrow>
     sel \<noteq> [] \<and> (\<forall>c \<in> set sel. c \<noteq> CHR ''<'' \<and> c \<noteq> CHR ''>'' \<and> c \<noteq> CHR ''}'')"
  by (auto simp: tokenToValue_def split: if_splits)

lemma Atoi_digits:
  assumes "ds \<noteq> []" "list_all isDigit ds"
  shows "fst (Atoi ds) = min (int (parseDigits ds)) maxInt64"
  using assms isDigit_hd [OF assms] by (simp add: Atoi_def Let_def min_def)

lemma widthTokens_eq:
  assumes "a = CHR ''<'' \<or> a = CHR ''>''" "ds \<noteq> []" "list_all isDigit ds"
  shows "widthTokens [a] ds =
     (if parseDigits ds = 0 then []
      else TInt (tfFieldWidth + push_bit tfFieldWidthShift (min (int (parseDigits ds)) 254 - 1))
           # (if a = CHR ''>'' then [TInt tfAlignRight] else []))"
  using assms(2) by (auto simp: widthTokens_def Atoi_digits [OF assms(2,3)] Let_def maxInt64_def min_def)

lemma specSplit_scan:
  assumes "\<forall>c \<in> set pre. c \<noteq> CHR ''<'' \<and> c \<noteq> CHR ''>''"
    and "a = CHR ''<'' \<or> a = CHR ''>''" "ds \<noteq> []" "list_all isDigit ds"
  shows "specSplit acc (pre @ a # ds) = (acc @ pre, [a], ds)"
  using assms by (induction pre arbitrary: acc) auto

lemma compile_single:
  assumes sel: "tokenToValue sel = Some v"
    and a: "a = CHR ''<'' \<or> a = CHR ''>''" and ds: "ds \<noteq> []" "list_all isDigit ds"
  shows "SetFormat f (''{'' @ sel @ a # ds @ ''}'')
           = Inr (f\<lparr>formatTokens := widthTokens [a] ds @ [TInt v]\<rparr>, None)"
proof -
  define body where "body = sel @ a # ds"
  have sc: "sel \<noteq> []" "\<forall>c \<in> set sel. c \<noteq> CHR ''<'' \<and> c \<noteq> CHR ''>'' \<and> c \<noteq> CHR ''}''"
    using selector_chars [OF sel] by auto
  have b: "body \<noteq> []" "CHR ''}'' \<notin> set body"
    using sc a isDigit_hd [OF ds] by (auto simp: body_def)
  have t: "''{'' @ sel @ a # ds @ ''}'' = CHR ''{'' # body @ [CHR ''}'']"
    by (simp add: body_def)
  define L where "L = length body + 2"
  have fa: "FindAllStringIndex 0 (CHR ''{'' # body @ [CHR ''}'']) = [(0, L)]"
    using spanEnd_span [OF b, of "[]"] by (simp add: L_def)
  have sl: "slice (CHR ''{'' # body @ [CHR ''}'']) 0 L = CHR ''{'' # body @ [CHR ''}'']"
    by (simp add: slice_def L_def)
  have "specSplit [hd body] (tl body) = specSplit [hd sel] (tl sel @ a # ds)"
    using sc(1) by (simp add: body_def)
  also have "\<dots> = ([hd sel] @ tl sel, [a], ds)"
    using sc(2) a ds by (intro specSplit_scan) (auto dest: list.set_sel(2) [OF sc(1)])
  finally have sp: "specSplit [hd body] (tl body) = (sel, [a], ds)"
    using sc(1) by simp
  have fs: "FindStringSubmatch (CHR ''{'' # body @ [CHR ''}'']) = Some (sel, [a], ds)"
    using FindStringSubmatch_span [OF b] sp by simp
  have "compileTags (CHR ''{'' # body @ [CHR ''}'']) [(0, L)] 0 []
          = Inr (Inr (widthTokens [a] ds @ [TInt v]))"
    by (simp add: sl fs sel Let_def)
  then show ?thesis
    unfolding t by (simp add: SetFormat_def fa del: FindAllStringIndex.simps compileTags.simps)
qed

lemma tokenSwitch_field_state:
  assumes "v \<in> {0, 1, 2, 3, 4, 5}"
  shows "alignFmt (snd (tokenSwitch LN f r lc v st)) = alignFmt st
       \<and> width (snd (tokenSwitch LN f r lc v st)) = width st
       \<and> parts (snd (tokenSwitch LN f r lc v st)) = parts st"
  using assms
  by (auto simp: tokenSwitch_def Let_def tfTime_def tfTimeMilliseconds_def tfName_def
        tfBaseName_def tfLevel_def tfMessage_def)

lemma tokenSwitch_text:
  assumes "v \<in> {0, 1, 2, 3, 4, 5}" "processedMessage st = processedMessage st'"
    "processMessage f = processMessage f'"
  shows "fst (tokenSwitch LN f r lc v st) = fst (tokenSwitch LN f' r lc v st')"
  using assms
  by (auto simp: tokenSwitch_def Let_def tfTime_def tfTimeMilliseconds_def tfName_def
        tfBaseName_def tfLevel_def tfMessage_def)

lemma formatInt_width:
  assumes "1 \<le> w" "w \<le> 254"
  shows "formatInt LN f r lc (tfFieldWidth + push_bit tfFieldWidthShift (w - 1)) st
           = st\<lparr>width := w, alignFmt := ''%-'' @ itoa w @ ''s''\<rparr>"
proof -
  have w: "0 \<le> w" "w < 256" using assms by auto
  have big: "256 \<le> tfFieldWidth + push_bit tfFieldWidthShift (w - 1)"
    unfolding tok_eq using assms by (simp add: push_bit_eq_mult)
  have m: "(tfFieldWidth + push_bit tfFieldWidthShift (w - 1)) AND tfFieldWidthMask > 0"
    unfolding tok_mask [OF w] using assms by (simp add: push_bit_eq_mult)
  have "tokenSwitch LN f r lc (tfFieldWidth + push_bit tfFieldWidthShift (w - 1)) st
          = ([], st\<lparr>width := w, alignFmt := ''%-'' @ itoa w @ ''s''\<rparr>)"
    using big m
    by (simp add: tokenSwitch_def tok_decode [OF w] tok_noalign [OF w] Let_def tfTime_def
        tfTimeMilliseconds_def tfName_def tfBaseName_def tfLevel_def tfMessage_def
        del: drop_bit_and)
  then show ?thesis by (simp add: formatInt_def)
qed

lemma formatInt_align: "formatInt LN f r lc tfAlignRight st = st"
proof -
  have "tokenSwitch LN f r lc tfAlignRight st = ([], st)"
    by (simp add: tokenSwitch_def tfAlignRight_def tfFieldWidthMask_def tfTime_def
        tfTimeMilliseconds_def tfName_def tfBaseName_def tfLevel_def tfMessage_def)
  then show ?thesis by (simp add: formatInt_def)
qed

lemma formatInt_field:
  assumes "v \<in> {0, 1, 2, 3, 4, 5}" "0 < w" "fst (tokenSwitch LN f r lc v st) \<noteq> []"
    "alignFmt st = ''%-'' @ itoa w @ ''s''" "width st = w"
  shows "parts (formatInt LN f r lc v st)
           = parts st @ [truncateTo w (padString True (nat w) (fst (tokenSwitch LN f r lc v st)))]"
proof -
  obtain s st1 where sw: "tokenSwitch LN f r lc v st = (s, st1)"
    by (cases "tokenSwitch LN f r lc v st")
  from tokenSwitch_field_state [OF assms(1), of LN f r lc st] sw
  have st1: "alignFmt st1 = alignFmt st" "width st1 = width st" "parts st1 = parts st"
    by simp_all
  show ?thesis
    using st1 assms(3,4,5) Sprintf_left [OF assms(2)]
    by (simp add: formatInt_def sw Let_def)
qed

lemma render_width:
  assumes v: "v \<in> {0, 1, 2, 3, 4, 5}" and w: "1 \<le> w" "w \<le> 254"
    and l: "Level r \<noteq> NOTSET" "levelColoring f (Level r) = None"
    and al: "al = [] \<or> al = [TInt tfAlignRight]"
    and toks: "formatTokens f = TInt (tfFieldWidth + push_bit tfFieldWidthShift (w - 1)) # al @ [TInt v]"
    and s: "fieldText LN f r v \<noteq> []"
  shows "Format LN f r = (truncateTo w (padString True (nat w) (fieldText LN f r v)), None)"
proof -
  define st1 where "st1 = (initialState [])\<lparr>width := w, alignFmt := ''%-'' @ itoa w @ ''s''\<rparr>"
  have a1: "foldl (formatToken LN f r []) (initialState []) (formatTokens f)
              = formatInt LN f r [] v st1"
    using al by (auto simp: toks formatToken_def formatInt_width [OF w] formatInt_align st1_def)
  have t: "fst (tokenSwitch LN f r [] v st1) = fieldText LN f r v"
    unfolding fieldText_def
    by (rule tokenSwitch_text [OF v]) (simp_all add: st1_def initialState_def)
  have ne: "fst (tokenSwitch LN f r [] v st1) \<noteq> []" using s t by simp
  have af: "alignFmt st1 = ''%-'' @ itoa w @ ''s''" "width st1 = w"
    by (simp_all add: st1_def)
  have pos: "0 < w" using w by simp
  have "parts (formatInt LN f r [] v st1)
          = parts st1 @ [truncateTo w (padString True (nat w) (fst (tokenSwitch LN f r [] v st1)))]"
    by (rule formatInt_field [OF v pos ne af])
  moreover have "parts st1 = []" by (simp add: st1_def initialState_def)
  ultimately have "parts (formatInt LN f r [] v st1)
          = [truncateTo w (padString True (nat w) (fieldText LN f r v))]"
    unfolding t by simp
  then show ?thesis
    using l by (simp add: Format_def a1 Let_def)
qed

subsection \<open>The pending width\<close>

text \<open>
  C7 (as stated, refuted). The template \<open>{message<5}{name}\<close> and a record with an empty
  message and the name \<open>abc\<close>: the message field renders nothing and does not consume
  the pending width, which is still pending after the token, so the name is padded to
  five bytes although its span has no width.
\<close>

theorem empty_field_keeps_pending_width:
  "renderWith exampleLevelName ''{message<5}{name}'' (exampleRecord ''abc'' INFO [])
     = Some ([TInt 1280, TInt 5, TInt 2], ''abc  '', None)
   \<and> alignFmt (foldl (formatToken exampleLevelName (exampleFormatter [])
                        (exampleRecord ''abc'' INFO []) [])
                 (initialState []) [TInt 1280, TInt 5]) = ''%-5s''
   \<and> renderWith exampleLevelName ''{message}{name}'' (exampleRecord ''abc'' INFO [])
     = Some ([TInt 5, TInt 2], ''abc'', None)"
  by code_simp

text \<open>
  C7 (amended). For a field selector token: when the field text is empty, the pending
  alignment format and width and the parts are left as they were; when the field text is
  not empty and a width is pending, the text is padded and cut to the pending width,
  appended, and the pending alignment format and width are reset.
\<close>

theorem pending_width_consumed_on_use:
  assumes "tokenToValue sel = Some v"
  shows "(fst (tokenSwitch LN f r lc v st) = [] \<longrightarrow>
            alignFmt (formatInt LN f r lc v st) = alignFmt st
            \<and> width (formatInt LN f r lc v st) = width st
            \<and> parts (formatInt LN f r lc v st) = parts st)
       \<and> (fst (tokenSwitch LN f r lc v st) \<noteq> [] \<and> alignFmt st \<noteq> [] \<longrightarrow>
            alignFmt (formatInt LN f r lc v st) = []
            \<and> width (formatInt LN f r lc v st) = 0
            \<and> parts (formatInt LN f r lc v st)
                = parts st @ [truncateTo (width st)
                                (Sprintf_s (alignFmt st) (fst (tokenSwitch LN f r lc v st)))])"
proof -
  obtain s st1 where sw: "tokenSwitch LN f r lc v st = (s, st1)"
    by (cases "tokenSwitch LN f r lc v st")
  from tokenSwitch_field_state [OF selector_values [OF assms], of LN f r lc st] sw
  have st1: "alignFmt st1 = alignFmt st" "width st1 = width st" "parts st1 = parts st"
    by simp_all
  show ?thesis
    using st1 by (simp add: formatInt_def sw Let_def)
qed

theorem pending_width_consumed_on_use_witness:
  "tokenToValue ''message'' = Some 5
   \<and> fst (tokenSwitch exampleLevelName (exampleFormatter []) (exampleRecord ''abc'' INFO []) [] 5
          ((initialState [])\<lparr>alignFmt := ''%-5s'', width := 5\<rparr>)) = []
   \<and> alignFmt (formatInt exampleLevelName (exampleFormatter []) (exampleRecord ''abc'' INFO []) [] 5
          ((initialState [])\<lparr>alignFmt := ''%-5s'', width := 5\<rparr>)) = ''%-5s''
   \<and> tokenToValue ''name'' = Some 2
   \<and> fst (tokenSwitch exampleLevelName (exampleFormatter []) (exampleRecord ''abc'' INFO []) [] 2
          ((initialState [])\<lparr>alignFmt := ''%-5s'', width := 5\<rparr>)) = ''abc''
   \<and> alignFmt (formatInt exampleLevelName (exampleFormatter []) (exampleRecord ''abc'' INFO []) [] 2
          ((initialState [])\<lparr>alignFmt := ''%-5s'', width := 5\<rparr>)) = []"
proof -
  have m: "tokenToValue ''message'' = Some 5" and n: "tokenToValue ''name'' = Some 2"
    by (simp_all add: tokenToValue_def tfMessage_def tfName_def)
  have e: "fst (tokenSwitch exampleLevelName (exampleFormatter []) (exampleRecord ''abc'' INFO []) [] 5
          ((initialState [])\<lparr>alignFmt := ''%-5s'', width := 5\<rparr>)) = []"
    by (simp add: tokenSwitch_def exampleRecord_def initialState_def tfTime_def
        tfTimeMilliseconds_def tfName_def tfBaseName_def tfLevel_def tfMessage_def)
  have t: "fst (tokenSwitch exampleLevelName (exampleFormatter []) (exampleRecord ''abc'' INFO []) [] 2
          ((initialState [])\<lparr>alignFmt := ''%-5s'', width := 5\<rparr>)) = ''abc''"
    by (simp add: tokenSwitch_def exampleRecord_def initialState_def tfTime_def
        tfTimeMilliseconds_def tfName_def)
  show ?thesis
    using m n e t
      pending_width_consumed_on_use [OF m, of exampleLevelName "exampleFormatter []"
        "exampleRecord ''abc'' INFO []" "[]" "(initialState [])\<lparr>alignFmt := ''%-5s'', width := 5\<rparr>"]
      pending_width_consumed_on_use [OF n, of exampleLevelName "exampleFormatter []"
        "exampleRecord ''abc'' INFO []" "[]" "(initialState [])\<lparr>alignFmt := ''%-5s'', width := 5\<rparr>"]
    by (simp add: initialState_def)
qed

subsection \<open>Compiling and rendering a span with a width\<close>

text \<open>
  C10 (as stated, refuted). The template \<open>{message<5}\<close> compiles to the width token for 5
  and the message selector; for a record with an empty message the field is not padded
  to five bytes: nothing is rendered.
\<close>

theorem empty_field_is_not_padded:
  "renderWith exampleLevelName ''{message<5}'' (exampleRecord ''abc'' INFO [])
     = Some ([TInt 1280, TInt 5], [], None)"
  by code_simp

text \<open>
  C10 (amended). For a template that is one span with a recognised selector, an
  alignment character and a run of digits of value n: SetFormat succeeds; when n is 0 no
  width or alignment token is emitted; otherwise, with w the smaller of n and 254, the
  width token is tfFieldWidth + ((w - 1) << 8), followed by the alignment token only for
  the character >, the renderer recovers exactly w from the width token, and for every
  record (level other than NOTSET, no line colour) whose field text is not empty the
  rendered field has exactly w bytes; for the character < it is the field text padded
  with spaces on the right to w runes and cut to w bytes.
\<close>

theorem width_directive:
  assumes sel: "tokenToValue sel = Some v"
    and a: "a = CHR ''<'' \<or> a = CHR ''>''" and ds: "ds \<noteq> []" "list_all isDigit ds"
  shows "SetFormat f (''{'' @ sel @ a # ds @ ''}'')
           = Inr (f\<lparr>formatTokens := widthTokens [a] ds @ [TInt v]\<rparr>, None)
       \<and> (parseDigits ds = 0 \<longrightarrow> widthTokens [a] ds = [])
       \<and> (0 < parseDigits ds \<longrightarrow>
            widthTokens [a] ds
              = TInt (tfFieldWidth
                      + push_bit tfFieldWidthShift (min (int (parseDigits ds)) 254 - 1))
                # (if a = CHR ''>'' then [TInt tfAlignRight] else [])
            \<and> drop_bit tfFieldWidthShift
                 ((tfFieldWidth + push_bit tfFieldWidthShift (min (int (parseDigits ds)) 254 - 1))
                  AND tfFieldWidthMask) = min (int (parseDigits ds)) 254
            \<and> (\<forall>LN r. Level r \<noteq> NOTSET \<and> levelColoring f (Level r) = None
                        \<and> fieldText LN f r v \<noteq> [] \<longrightarrow>
                  snd (Format LN (f\<lparr>formatTokens := widthTokens [a] ds @ [TInt v]\<rparr>) r) = None
                  \<and> int (length (fst (Format LN
                            (f\<lparr>formatTokens := widthTokens [a] ds @ [TInt v]\<rparr>) r)))
                      = min (int (parseDigits ds)) 254
                  \<and> (a = CHR ''<'' \<longrightarrow>
                        fst (Format LN (f\<lparr>formatTokens := widthTokens [a] ds @ [TInt v]\<rparr>) r)
                          = truncateTo (min (int (parseDigits ds)) 254)
                              (padString True (nat (min (int (parseDigits ds)) 254))
                                 (fieldText LN f r v)))))"
proof (intro conjI impI allI)
  show "SetFormat f (''{'' @ sel @ a # ds @ ''}'')
           = Inr (f\<lparr>formatTokens := widthTokens [a] ds @ [TInt v]\<rparr>, None)"
    by (rule compile_single [OF sel a ds])
next
  assume "parseDigits ds = 0"
  then show "widthTokens [a] ds = []"
    by (simp add: widthTokens_eq [OF a ds])
next
  assume p: "0 < parseDigits ds"
  define w where "w = min (int (parseDigits ds)) 254"
  have w: "1 \<le> w" "w \<le> 254" using p by (auto simp: w_def)
  have wt: "widthTokens [a] ds
              = TInt (tfFieldWidth + push_bit tfFieldWidthShift (w - 1))
                # (if a = CHR ''>'' then [TInt tfAlignRight] else [])"
    using p by (simp add: widthTokens_eq [OF a ds] w_def)
  show "widthTokens [a] ds
              = TInt (tfFieldWidth
                      + push_bit tfFieldWidthShift (min (int (parseDigits ds)) 254 - 1))
                # (if a = CHR ''>'' then [TInt tfAlignRight] else [])"
    using wt by (simp only: w_def)
  show "drop_bit tfFieldWidthShift
                 ((tfFieldWidth + push_bit tfFieldWidthShift (min (int (parseDigits ds)) 254 - 1))
                  AND tfFieldWidthMask) = min (int (parseDigits ds)) 254"
    using tok_decode [of w] w by (simp only: w_def)
  fix LN r
  assume h: "Level r \<noteq> NOTSET \<and> levelColoring f (Level r) = None \<and> fieldText LN f r v \<noteq> []"
  define f1 where "f1 = f\<lparr>formatTokens := widthTokens [a] ds @ [TInt v]\<rparr>"
  have ft: "fieldText LN f1 r v = fieldText LN f r v"
    unfolding fieldText_def
    by (rule tokenSwitch_text [OF selector_values [OF sel]]) (simp_all add: f1_def)
  have toks: "formatTokens f1 = TInt (tfFieldWidth + push_bit tfFieldWidthShift (w - 1))
                # (if a = CHR ''>'' then [TInt tfAlignRight] else []) @ [TInt v]"
    by (simp add: f1_def wt)
  have l1: "Level r \<noteq> NOTSET" "levelColoring f1 (Level r) = None"
    using h by (simp_all add: f1_def)
  have al: "(if a = CHR ''>'' then [TInt tfAlignRight] else []) = []
            \<or> (if a = CHR ''>'' then [TInt tfAlignRight] else []) = [TInt tfAlignRight]"
    by simp
  have s1: "fieldText LN f1 r v \<noteq> []" using h ft by simp
  have "Format LN f1 r = (truncateTo w (padString True (nat w) (fieldText LN f1 r v)), None)"
    by (rule render_width [OF selector_values [OF sel] w l1 al toks s1])
  then have r: "Format LN f1 r
                  = (truncateTo w (padString True (nat w) (fieldText LN f r v)), None)"
    by (simp only: ft)
  show "snd (Format LN (f\<lparr>formatTokens := widthTokens [a] ds @ [TInt v]\<rparr>) r) = None"
    using r by (simp add: f1_def)
  show "int (length (fst (Format LN (f\<lparr>formatTokens := widthTokens [a] ds @ [TInt v]\<rparr>) r)))
          = min (int (parseDigits ds)) 254"
    using r length_truncate_pad [of w True "fieldText LN f r v"] w
    by (simp add: f1_def w_def)
  show "fst (Format LN (f\<lparr>formatTokens := widthTokens [a] ds @ [TInt v]\<rparr>) r)
          = truncateTo (min (int (parseDigits ds)) 254)
              (padString True (nat (min (int (parseDigits ds)) 254)) (fieldText LN f r v))"
    using r by (simp add: f1_def w_def)
qed

theorem width_directive_witness:
  "tokenToValue ''name'' = Some 2 \<and> list_all isDigit ''999'' \<and> parseDigits ''999'' = 999
   \<and> Level (exampleRecord ''abc'' INFO ''hi'') \<noteq> NOTSET
   \<and> fieldText exampleLevelName (exampleFormatter []) (exampleRecord ''abc'' INFO ''hi'') 2 = ''abc''
   \<and> SetFormat (exampleFormatter []) ''{name<999}'' = Inr (exampleFormatter [TInt 65024, TInt 2], None)
   \<and> int (length (fst (Format exampleLevelName (exampleFormatter [TInt 65024, TInt 2])
                         (exampleRecord ''abc'' INFO ''hi'')))) = 254"
proof -
  have n: "tokenToValue ''name'' = Some 2"
    by (simp add: tokenToValue_def tfName_def)
  have d: "list_all isDigit ''999''" "''999'' \<noteq> []"
    by (simp_all add: isDigit_def)
  have p: "parseDigits ''999'' = 999"
    by (simp add: parseDigits_def digitVal_def)
  have l: "Level (exampleRecord ''abc'' INFO ''hi'') \<noteq> NOTSET"
    by (simp add: exampleRecord_def)
  have c: "levelColoring (exampleFormatter []) (Level (exampleRecord ''abc'' INFO ''hi'')) = None"
    by (simp add: exampleFormatter_def)
  have t: "fieldText exampleLevelName (exampleFormatter []) (exampleRecord ''abc'' INFO ''hi'') 2 = ''abc''"
    by (simp add: fieldText_def tokenSwitch_def exampleRecord_def tfTime_def
        tfTimeMilliseconds_def tfName_def)
  have w: "widthTokens ''<'' ''999'' @ [TInt 2] = [TInt 65024, TInt 2]"
    using widthTokens_eq [of "CHR ''<''" "''999''"] d p
    by (simp add: tfFieldWidth_def tfFieldWidthShift_def)
  have u: "(exampleFormatter [])\<lparr>formatTokens := [TInt 65024, TInt 2]\<rparr>
             = exampleFormatter [TInt 65024, TInt 2]"
    by (simp add: exampleFormatter_def)
  have a: "CHR ''<'' = CHR ''<'' \<or> CHR ''<'' = CHR ''>''" by simp
  have pd: "0 < parseDigits ''999''" by (simp add: p)
  note th = width_directive [OF n a d(2,1), of "exampleFormatter []"]
  have s: "SetFormat (exampleFormatter []) ''{name<999}''
             = Inr (exampleFormatter [TInt 65024, TInt 2], None)"
    using th [THEN conjunct1] by (simp add: w u)
  note q = th [THEN conjunct2, THEN conjunct2, THEN mp, OF pd, THEN conjunct2, THEN conjunct2,
      THEN spec, THEN spec, THEN mp, THEN conjunct2, THEN conjunct1]
  have "int (length (fst (Format exampleLevelName
          ((exampleFormatter [])\<lparr>formatTokens := widthTokens ''<'' ''999'' @ [TInt 2]\<rparr>)
          (exampleRecord ''abc'' INFO ''hi'')))) = min (int (parseDigits ''999'')) 254"
    by (rule q) (simp add: l c t)
  then have "int (length (fst (Format exampleLevelName (exampleFormatter [TInt 65024, TInt 2])
                         (exampleRecord ''abc'' INFO ''hi'')))) = 254"
    by (simp add: w u p)
  with n d p l t s show ?thesis by simp
qed

section \<open>Alignment and the stored template\<close>

text \<open>
  C4. With the field value \<open>abc\<close>, the template \<open>{name<5}\<close> renders \<open>abc\<close> followed by
  two spaces and \<open>{name<2}\<close> renders \<open>ab\<close>. The template \<open>{name>5}\<close> renders the same
  left-aligned text as \<open>{name<5}\<close>: the alignment token is a token of its own, which no
  case of the switch in Format matches, and the width token never has the alignment bit.
\<close>

theorem right_alignment_renders_left:
  "renderWith exampleLevelName ''{name<5}'' (exampleRecord ''abc'' INFO ''hi'')
     = Some ([TInt 1280, TInt 2], ''abc  '', None)
   \<and> renderWith exampleLevelName ''{name>5}'' (exampleRecord ''abc'' INFO ''hi'')
     = Some ([TInt 1280, TInt 65536, TInt 2], ''abc  '', None)
   \<and> renderWith exampleLevelName ''{name<2}'' (exampleRecord ''abc'' INFO ''hi'')
     = Some ([TInt 512, TInt 2], ''ab'', None)"
  by code_simp

text \<open>
  C6. A formatter built from \<open>{name}\<close> and recompiled with \<open>{level}\<close>: SetFormat succeeds
  and installs the new tokens, and GetFormat still returns \<open>{name}\<close>, since SetFormat
  does not assign the field formatString.
\<close>

theorem SetFormat_keeps_formatString:
  "(case NewTemplateFormatter ''{name}'' of
      Inr (Some f, None) \<Rightarrow>
        (case SetFormat f ''{level}'' of
           Inr (f1, err) \<Rightarrow> Some (formatTokens f, formatTokens f1, err, GetFormat f1)
         | Inl p \<Rightarrow> None)
    | _ \<Rightarrow> None)
   = Some ([TInt 2], [TInt 4], None, ''{name}'')"
  by code_simp

end
